theory Spec2Isabelle
  imports Main "HOL-Library.Word"
begin

unbundle bit_operations_syntax

section \<open>Bytes, memory and printed lines\<close>

type_synonym u8 = "8 word"
type_synonym u16 = "16 word"
type_synonym u32 = "32 word"

text \<open>
  The decoders of \<^verbatim>\<open>usb_bos_webusb_msos20_analyzer.c\<close> take a pointer \<^verbatim>\<open>data\<close> and an
  \<^verbatim>\<open>int length\<close>. The pointer is modelled by the memory it points into: \<open>data i\<close> is the
  byte that the C expression \<^verbatim>\<open>data[i]\<close> loads, whether or not \<open>i\<close> lies below the declared
  length. The declared length is a separate argument, as in the source. C's \<^verbatim>\<open>int\<close> is
  modelled by \<open>int\<close>: the offsets that the decoders compute stay below the declared
  length plus 2 * 65535 + 10, so no signed addition overflows for the lengths \<^verbatim>\<open>main\<close>
  passes (at most 512).
\<close>

type_synonym buffer = "int \<Rightarrow> u8"

text \<open>
  The buffer of \<^verbatim>\<open>main\<close>: cleared by \<^verbatim>\<open>memset\<close>, then filled with the bytes the device
  sent. Used for concrete inputs.
\<close>

definition buffer_of :: "u8 list \<Rightarrow> buffer" where
  "buffer_of bs i = (if 0 \<le> i \<and> i < int (length bs) then bs ! nat i else 0)"

text \<open>Pointer arithmetic: \<^verbatim>\<open>data + k\<close> or \<^verbatim>\<open>&data[k]\<close>.\<close>

definition shift :: "buffer \<Rightarrow> int \<Rightarrow> buffer" where
  "shift data k i = data (k + i)"

text \<open>\<^verbatim>\<open>lo | (hi << 8)\<close> stored in a \<^verbatim>\<open>uint16_t\<close>, and the four-byte form in a \<^verbatim>\<open>uint32_t\<close>.\<close>

definition le16 :: "u8 \<Rightarrow> u8 \<Rightarrow> u16" where
  "le16 lo hi = ucast lo OR push_bit 8 (ucast hi)"

definition le32 :: "u8 \<Rightarrow> u8 \<Rightarrow> u8 \<Rightarrow> u8 \<Rightarrow> u32" where
  "le32 b0 b1 b2 b3 =
     ucast b0 OR push_bit 8 (ucast b1) OR push_bit 16 (ucast b2) OR push_bit 24 (ucast b3)"

text \<open>
  Every \<^verbatim>\<open>printf\<close> of a decoder is one line of its output. A line printed with
  \<^verbatim>\<open>COLOR_RED "ERROR: ..."\<close> is an \<open>Error\<close>, one printed with
  \<^verbatim>\<open>COLOR_ORANGE "WARNING: ..."\<close> is a \<open>Warning\<close>, every other one is \<open>Info\<close>.
\<close>

datatype 'f line = Info 'f | Warning 'f | Error 'f

fun is_error :: "'f line \<Rightarrow> bool" where
  "is_error (Error f) = True"
| "is_error (Info f) = False"
| "is_error (Warning f) = False"

fun is_warning :: "'f line \<Rightarrow> bool" where
  "is_warning (Warning f) = True"
| "is_warning (Info f) = False"
| "is_warning (Error f) = False"

text \<open>The local variables shared by the two walks, and the output so far.\<close>

record 'f walk =
  offset :: int
  error_count :: int
  warning_count :: int
  out :: "'f line list"

definition info :: "'f \<Rightarrow> ('f, 'a) walk_scheme \<Rightarrow> ('f, 'a) walk_scheme" where
  "info f st = st\<lparr>out := out st @ [Info f]\<rparr>"

text \<open>\<^verbatim>\<open>printf(COLOR_ORANGE "WARNING: ..."); warning_count++;\<close>\<close>

definition warning :: "'f \<Rightarrow> ('f, 'a) walk_scheme \<Rightarrow> ('f, 'a) walk_scheme" where
  "warning f st = st\<lparr>out := out st @ [Warning f], warning_count := warning_count st + 1\<rparr>"

text \<open>\<^verbatim>\<open>printf(COLOR_RED "ERROR: ..."); error_count++;\<close>\<close>

definition error :: "'f \<Rightarrow> ('f, 'a) walk_scheme \<Rightarrow> ('f, 'a) walk_scheme" where
  "error f st = st\<lparr>out := out st @ [Error f], error_count := error_count st + 1\<rparr>"

section \<open>The UUID formatter\<close>

definition hex_digit :: "nat \<Rightarrow> char" where
  "hex_digit n = ''0123456789abcdef'' ! n"

text \<open>\<^verbatim>\<open>%02x\<close> of a byte: two lowercase hexadecimal digits.\<close>

definition hex2 :: "u8 \<Rightarrow> string" where
  "hex2 b = [hex_digit (unat b div 16), hex_digit (unat b mod 16)]"

definition uuid_to_string :: "buffer \<Rightarrow> string" where
  "uuid_to_string uuid =
     hex2 (uuid 3) @ hex2 (uuid 2) @ hex2 (uuid 1) @ hex2 (uuid 0) @ ''-'' @
     hex2 (uuid 5) @ hex2 (uuid 4) @ ''-'' @
     hex2 (uuid 7) @ hex2 (uuid 6) @ ''-'' @
     hex2 (uuid 8) @ hex2 (uuid 9) @ ''-'' @
     hex2 (uuid 10) @ hex2 (uuid 11) @ hex2 (uuid 12) @ hex2 (uuid 13) @
     hex2 (uuid 14) @ hex2 (uuid 15)"

definition WEBUSB_UUID_STR :: string where
  "WEBUSB_UUID_STR = ''3408b638-09a9-47a0-8bfd-a0768815b665''"

definition MSOS20_UUID_STR :: string where
  "MSOS20_UUID_STR = ''d8dd60df-4589-4cc7-9cd2-659d9e648a9f''"

definition tolower :: "char \<Rightarrow> char" where
  "tolower c =
     (if (65::nat) \<le> of_char c \<and> of_char c \<le> (90::nat)
      then char_of (of_char c + (32::nat)) else c)"

text \<open>\<^verbatim>\<open>strcasecmp(a, b) == 0\<close> on strings without an embedded NUL.\<close>

definition strcasecmp_eq :: "string \<Rightarrow> string \<Rightarrow> bool" where
  "strcasecmp_eq a b = (map tolower a = map tolower b)"

section \<open>The BOS decoder\<close>

datatype bos_finding =
    BosBanner int
  | BosTooShort int
  | BosHeader u8 u8 u16 u8
  | BosBadType
  | BosLengthMismatch u16 int
  | CapTruncated int
  | CapHeader int int u8 u8 u8
  | PlatformCap u8 string
  | WebUSBCap
  | WebUSBData u16 u8 u8
  | WebUSBVendorZero
  | Msos20Cap
  | Msos20Data u32 u16 u8 u8
  | Msos20UnusualVersion
  | UnknownPlatformCap
  | NonPlatformCap u8
  | BosSummary int int int
  | BosWellFormed
  | BosValidWithWarnings int
  | BosHasErrors int int

text \<open>
  The state of \<^verbatim>\<open>parse_bos_descriptor\<close>: its local variables, its output, and \<open>reads\<close>,
  the indices of \<^verbatim>\<open>data\<close> that the statements executed so far have loaded, in order.
\<close>

record bos_state = "bos_finding walk" +
  cap_count :: int
  reads :: "int list"

definition touch :: "int list \<Rightarrow> bos_state \<Rightarrow> bos_state" where
  "touch is st = st\<lparr>reads := reads st @ is\<rparr>"

definition bos_start :: "int \<Rightarrow> bos_state" where
  "bos_start len =
     \<lparr>offset = 0, error_count = 0, warning_count = 0, out = [Info (BosBanner len)],
      cap_count = 0, reads = []\<rparr>"

text \<open>
  Lines 76 to 97: the header is read through the packed struct overlaid on \<^verbatim>\<open>data\<close>
  (\<^verbatim>\<open>wTotalLength\<close> on a little-endian host).
\<close>

definition bos_header :: "buffer \<Rightarrow> int \<Rightarrow> bos_state \<Rightarrow> bos_state" where
  "bos_header data len st =
     (let bLength = data 0;
          bDescriptorType = data 1;
          wTotalLength = le16 (data 2) (data 3);
          bNumDeviceCaps = data 4;
          st1 = info (BosHeader bLength bDescriptorType wTotalLength bNumDeviceCaps)
                  (touch [0, 1, 2, 3, 4] st);
          st2 = (if bDescriptorType \<noteq> 0x0F then error BosBadType st1 else st1);
          st3 = (if uint wTotalLength \<noteq> len
                 then warning (BosLengthMismatch wTotalLength len) st2 else st2)
      in st3\<lparr>offset := uint bLength, cap_count := 0\<rparr>)"

text \<open>
  Lines 117 to 169: the branch of a platform capability. \<^verbatim>\<open>sizeof(struct
  usb_plat_dev_cap_descriptor)\<close> is 20 (the flexible array member has no size).
\<close>

definition platform_capability :: "buffer \<Rightarrow> bos_state \<Rightarrow> bos_state" where
  "platform_capability data st =
     (let off = offset st;
          cap_length = data off;
          uuid_str = uuid_to_string (shift data (off + 4));
          st1 = info (PlatformCap (data (off + 3)) uuid_str)
                  (touch ([off + 4 .. off + 19] @ [off + 3]) st)
      in if strcasecmp_eq uuid_str WEBUSB_UUID_STR then
           (let st2 = info WebUSBCap st1
            in if uint cap_length \<ge> 20 + 4 then
                 (let bcd_version = le16 (data (off + 20)) (data (off + 20 + 1));
                      vendor_code = data (off + 20 + 2);
                      landing_page = data (off + 20 + 3);
                      st3 = info (WebUSBData bcd_version vendor_code landing_page)
                              (touch [off + 20 .. off + 20 + 3] st2)
                  in if vendor_code = 0 then warning WebUSBVendorZero st3 else st3)
               else st2)
         else if strcasecmp_eq uuid_str MSOS20_UUID_STR then
           (let st2 = info Msos20Cap st1
            in if uint cap_length \<ge> 20 + 8 then
                 (let win_version = le32 (data (off + 20)) (data (off + 20 + 1))
                                      (data (off + 20 + 2)) (data (off + 20 + 3));
                      desc_set_len = le16 (data (off + 20 + 4)) (data (off + 20 + 5));
                      vendor_code = data (off + 20 + 6);
                      alt_enum = data (off + 20 + 7);
                      st3 = info (Msos20Data win_version desc_set_len vendor_code alt_enum)
                              (touch [off + 20 .. off + 20 + 7] st2)
                  in if win_version \<noteq> 0x06030000 then warning Msos20UnusualVersion st3 else st3)
               else st2)
         else info UnknownPlatformCap st1)"

text \<open>Lines 106 to 176: one iteration of the walk after the truncation check.\<close>

definition bos_capability :: "buffer \<Rightarrow> int \<Rightarrow> bos_state \<Rightarrow> bos_state" where
  "bos_capability data len st =
     (let off = offset st;
          cap_length = data off;
          cap_type = data (off + 1);
          cap_capability_type = data (off + 2);
          st1 = info (CapHeader (cap_count st) off cap_length cap_type cap_capability_type)
                  (touch [off, off + 1, off + 2] st);
          st2 = (if cap_capability_type = 0x05 \<and> off + 20 \<le> len
                 then platform_capability data st1
                 else info (NonPlatformCap cap_capability_type) st1)
      in st2\<lparr>offset := off + uint cap_length, cap_count := cap_count st2 + 1\<rparr>)"

text \<open>
  Lines 99 to 177: the loop. The \<^verbatim>\<open>break\<close> of the truncation check leaves it; otherwise
  the body runs and the condition is tested again.
\<close>

function bos_walk :: "buffer \<Rightarrow> int \<Rightarrow> bos_state \<Rightarrow> bos_state" where
  "bos_walk data len st =
     (if offset st < len \<and> cap_count st < uint (data 4) then
        (if offset st + 3 > len then error (CapTruncated (offset st)) st
         else bos_walk data len (bos_capability data len st))
      else st)"
  by pat_completeness auto
termination
  by (relation "measure (\<lambda>(data, len, st). nat (uint (data 4) - cap_count st))")
    (auto simp: bos_capability_def platform_capability_def info_def warning_def touch_def
      Let_def)

declare bos_walk.simps [simp del]

text \<open>Lines 179 to 189.\<close>

definition bos_summary :: "bos_state \<Rightarrow> bos_state" where
  "bos_summary st =
     (let st1 = info (BosSummary (cap_count st) (error_count st) (warning_count st)) st
      in if error_count st = 0 \<and> warning_count st = 0 then info BosWellFormed st1
         else if error_count st = 0 then info (BosValidWithWarnings (warning_count st)) st1
         else info (BosHasErrors (error_count st) (warning_count st)) st1)"

text \<open>
  The whole function. On the early return of line 73 the error line is printed, the
  counter is not incremented and no summary is printed.
\<close>

definition parse_bos_descriptor :: "buffer \<Rightarrow> int \<Rightarrow> bos_state" where
  "parse_bos_descriptor data len =
     (let st = bos_start len
      in if len < 5 then st\<lparr>out := out st @ [Error (BosTooShort len)]\<rparr>
         else bos_summary (bos_walk data len (bos_header data len st)))"

section \<open>The WebUSB URL decoder\<close>

datatype url_finding =
    UrlBanner int
  | UrlTooShort
  | UrlLength u8
  | UrlType u8
  | UrlScheme u8 string
  | UrlText string

text \<open>\<^verbatim>\<open>printf("%c", b)\<close>: the byte itself, as a character.\<close>

definition byte_char :: "u8 \<Rightarrow> char" where
  "byte_char b = char_of (unat b)"

text \<open>Lines 210 to 228: the name printed for the scheme, and \<^verbatim>\<open>scheme_prefix\<close>.\<close>

definition scheme_name :: "u8 \<Rightarrow> string" where
  "scheme_name bScheme =
     (if bScheme = 0 then ''HTTP'' else if bScheme = 1 then ''HTTPS''
      else if bScheme = 255 then ''None'' else ''Unknown'')"

definition scheme_prefix :: "u8 \<Rightarrow> string" where
  "scheme_prefix bScheme =
     (if bScheme = 0 then ''http://'' else if bScheme = 1 then ''https://''
      else if bScheme = 255 then [] else ''unknown://'')"

text \<open>Lines 232 to 234: the loop that prints the bytes of the URL, from \<open>i\<close> on.\<close>

function url_chars :: "buffer \<Rightarrow> int \<Rightarrow> u8 \<Rightarrow> int \<Rightarrow> string" where
  "url_chars data len bLength i =
     (if i < len \<and> i < uint bLength
      then byte_char (data i) # url_chars data len bLength (i + 1) else [])"
  by pat_completeness auto
termination
  by (relation "measure (\<lambda>(data, len, bLength, i). nat (len - i))") auto

declare url_chars.simps [simp del]

definition parse_webusb_url_descriptor :: "buffer \<Rightarrow> int \<Rightarrow> url_finding line list" where
  "parse_webusb_url_descriptor data len =
     (if len < 3 then [Info (UrlBanner len), Error UrlTooShort]
      else
        (let bLength = data 0;
             bDescriptorType = data 1;
             bScheme = data 2;
             header = [Info (UrlBanner len), Info (UrlLength bLength),
                       Info (UrlType bDescriptorType),
                       Info (UrlScheme bScheme (scheme_name bScheme))]
         in if len > 3
            then header @ [Info (UrlText (scheme_prefix bScheme @ url_chars data len bLength 3))]
            else header))"

section \<open>The MS OS 2.0 descriptor-set decoder\<close>

datatype msos_finding =
    MsosBanner int
  | Truncated int int
  | AtOffset int
  | ZeroLength int
  | InvalidLength u16 int
  | BeyondBuffer int u16 int
  | SetHeaderTooShort u16
  | SetHeader u16 u32 u16
  | TotalLengthMismatch u16 int
  | SetHeaderNotFirst int
  | UnusualWindowsVersion
  | ConfigSubsetTooShort u16
  | ConfigSubset u16 u8 u16
  | ReservedNotZero u8
  | ConfigSubsetBeyond
  | FunctionSubsetTooShort u16
  | FunctionSubset u16 u8 u16
  | FunctionSubsetBeyond
  | FunctionSubsetSmaller
  | CompatibleIDTooShort u16
  | CompatibleID u16 string string
  | NotWinusb
  | NotNullTerminated
  | RegPropertyTooShort u16
  | RegProperty u16 u16 u16
  | UnusualDataType
  | InvalidNameLength
  | NameBeyond
  | PropertyName string
  | EmptyName
  | DataLengthBeyond
  | PropertyDataLength u16
  | LengthMismatch int u16
  | DataBeyond
  | PropertyData string
  | UnknownType u16 u16
  | MsosSummary int int
  | MsosWellFormed
  | MsosValidWithWarnings int
  | MsosHasErrors int int

type_synonym msos_state = "msos_finding walk"

text \<open>Lines 284 to 315.\<close>

definition set_header :: "buffer \<Rightarrow> int \<Rightarrow> u16 \<Rightarrow> msos_state \<Rightarrow> msos_state" where
  "set_header data len wLength st =
     (if uint wLength < 10 then error (SetHeaderTooShort wLength) st
      else
        (let off = offset st;
             dwWindowsVersion = le32 (data (off + 4)) (data (off + 5)) (data (off + 6))
                                  (data (off + 7));
             wTotalLength = le16 (data (off + 8)) (data (off + 9));
             st1 = info (SetHeader wLength dwWindowsVersion wTotalLength) st;
             st2 = (if uint wTotalLength \<noteq> len
                    then warning (TotalLengthMismatch wTotalLength len) st1 else st1);
             st3 = (if off \<noteq> 0 then warning (SetHeaderNotFirst off) st2 else st2)
         in if dwWindowsVersion \<noteq> 0x06030000 then warning UnusualWindowsVersion st3
            else st3))"

text \<open>Lines 316 to 339.\<close>

definition config_subset :: "buffer \<Rightarrow> int \<Rightarrow> u16 \<Rightarrow> msos_state \<Rightarrow> msos_state" where
  "config_subset data len wLength st =
     (if uint wLength < 8 then error (ConfigSubsetTooShort wLength) st
      else
        (let off = offset st;
             bConfigurationValue = data (off + 4);
             bReserved = data (off + 5);
             wTotalLength = le16 (data (off + 6)) (data (off + 7));
             st1 = info (ConfigSubset wLength bConfigurationValue wTotalLength) st;
             st2 = (if bReserved \<noteq> 0 then warning (ReservedNotZero bReserved) st1 else st1)
         in if off + uint wTotalLength > len then error ConfigSubsetBeyond st2 else st2))"

text \<open>Lines 340 to 368.\<close>

definition function_subset :: "buffer \<Rightarrow> int \<Rightarrow> u16 \<Rightarrow> msos_state \<Rightarrow> msos_state" where
  "function_subset data len wLength st =
     (if uint wLength < 8 then error (FunctionSubsetTooShort wLength) st
      else
        (let off = offset st;
             bFirstInterface = data (off + 4);
             bReserved = data (off + 5);
             wSubsetLength = le16 (data (off + 6)) (data (off + 7));
             st1 = info (FunctionSubset wLength bFirstInterface wSubsetLength) st;
             st2 = (if bReserved \<noteq> 0 then warning (ReservedNotZero bReserved) st1 else st1);
             st3 = (if off + uint wSubsetLength > len then error FunctionSubsetBeyond st2
                    else st2)
         in if uint wSubsetLength < uint wLength then error FunctionSubsetSmaller st3
            else st3))"

text \<open>\<^verbatim>\<open>%.8s\<close> of a pointer: at most \<open>n\<close> bytes, up to the first NUL.\<close>

definition str_prec :: "nat \<Rightarrow> buffer \<Rightarrow> string" where
  "str_prec n p = map byte_char (takeWhile (\<lambda>b. b \<noteq> 0) (map (\<lambda>i. p (int i)) [0..<n]))"

text \<open>\<^verbatim>\<open>strncmp(p, "WINUSB", 6) == 0\<close>: the constant has no NUL in its first six bytes.\<close>

definition has_winusb :: "buffer \<Rightarrow> bool" where
  "has_winusb p = (map (\<lambda>i. byte_char (p (int i))) [0..<6] = ''WINUSB'')"

text \<open>Lines 369 to 391.\<close>

definition compatible_id :: "buffer \<Rightarrow> int \<Rightarrow> u16 \<Rightarrow> msos_state \<Rightarrow> msos_state" where
  "compatible_id data len wLength st =
     (if uint wLength < 20 then error (CompatibleIDTooShort wLength) st
      else
        (let off = offset st;
             st1 = info (CompatibleID wLength (str_prec 8 (shift data (off + 4)))
                           (str_prec 8 (shift data (off + 12)))) st;
             st2 = (if \<not> has_winusb (shift data (off + 4)) then warning NotWinusb st1
                    else st1)
         in if data (off + 4 + 6) \<noteq> 0 \<or> data (off + 4 + 7) \<noteq> 0
            then warning NotNullTerminated st2 else st2))"

text \<open>
  \<^verbatim>\<open>char c = data[...]; c >= 32 && c <= 126\<close>. Whether \<^verbatim>\<open>char\<close> is signed or not, the
  test holds exactly for the bytes 32 to 126.
\<close>

definition printable :: "u8 \<Rightarrow> bool" where
  "printable c = (32 \<le> uint c \<and> uint c \<le> 126)"

text \<open>
  Lines 419 to 431: the loop over the code units of the property name, from \<open>i\<close> on,
  with the characters printed so far and \<^verbatim>\<open>name_chars\<close>. \<open>n\<close> is
  \<^verbatim>\<open>wPropertyNameLength\<close>.
\<close>

function name_loop ::
  "buffer \<Rightarrow> int \<Rightarrow> int \<Rightarrow> int \<Rightarrow> int \<Rightarrow> string \<times> int \<Rightarrow> string \<times> int" where
  "name_loop data len off n i acc =
     (if i < n - 2 then
        (if off + 8 + i + 1 < len then
           (if printable (data (off + 8 + i))
            then name_loop data len off n (i + 2)
                   (fst acc @ [byte_char (data (off + 8 + i))], snd acc + 1)
            else if data (off + 8 + i) = 0 then acc
            else name_loop data len off n (i + 2) (fst acc @ ''?'', snd acc))
         else name_loop data len off n (i + 2) acc)
      else acc)"
  by pat_completeness auto
termination
  by (relation "measure (\<lambda>(data, len, off, n, i, acc). nat (n - 2 - i))") auto

declare name_loop.simps [simp del]

text \<open>
  Lines 461 to 472: the loop over the property data, from \<open>i\<close> on. \<open>n\<close> is
  \<^verbatim>\<open>wPropertyDataLength\<close>.
\<close>

function data_loop :: "buffer \<Rightarrow> int \<Rightarrow> int \<Rightarrow> int \<Rightarrow> int \<Rightarrow> string \<Rightarrow> string" where
  "data_loop data len data_offset n i acc =
     (if i < n - 2 then
        (if data_offset + 2 + i < len then
           (if printable (data (data_offset + 2 + i))
            then data_loop data len data_offset n (i + 2)
                   (acc @ [byte_char (data (data_offset + 2 + i))])
            else if data (data_offset + 2 + i) = 0 then acc
            else data_loop data len data_offset n (i + 2) (acc @ ''?''))
         else data_loop data len data_offset n (i + 2) acc)
      else acc)"
  by pat_completeness auto
termination
  by (relation "measure (\<lambda>(data, len, data_offset, n, i, acc). nat (n - 2 - i))") auto

declare data_loop.simps [simp del]

text \<open>Lines 392 to 479.\<close>

definition reg_property :: "buffer \<Rightarrow> int \<Rightarrow> u16 \<Rightarrow> msos_state \<Rightarrow> msos_state" where
  "reg_property data len wLength st =
     (if uint wLength < 8 then error (RegPropertyTooShort wLength) st
      else
        (let off = offset st;
             wPropertyDataType = le16 (data (off + 4)) (data (off + 5));
             wPropertyNameLength = le16 (data (off + 6)) (data (off + 7));
             st1 = info (RegProperty wLength wPropertyDataType wPropertyNameLength) st;
             st2 = (if wPropertyDataType \<noteq> 1 \<and> wPropertyDataType \<noteq> 7
                    then warning UnusualDataType st1 else st1)
         in if wPropertyNameLength = 0 \<or> uint wPropertyNameLength mod 2 \<noteq> 0
            then error InvalidNameLength st2
            else if off + 8 + uint wPropertyNameLength > len then error NameBeyond st2
            else
              (let name = name_loop data len off (uint wPropertyNameLength) 0 ([], 0);
                   st3 = info (PropertyName (fst name)) st2;
                   st4 = (if snd name = 0 then warning EmptyName st3 else st3);
                   data_offset = off + 8 + uint wPropertyNameLength
               in if data_offset + 2 > len then error DataLengthBeyond st4
                  else
                    (let wPropertyDataLength = le16 (data data_offset) (data (data_offset + 1));
                         st5 = info (PropertyDataLength wPropertyDataLength) st4;
                         expected_total = 8 + uint wPropertyNameLength + 2 +
                                          uint wPropertyDataLength;
                         st6 = (if expected_total \<noteq> uint wLength
                                then error (LengthMismatch expected_total wLength) st5
                                else st5)
                     in if data_offset + 2 + uint wPropertyDataLength > len
                        then error DataBeyond st6
                        else if uint wPropertyDataLength > 0
                        then info (PropertyData
                               (data_loop data len data_offset (uint wPropertyDataLength) 0 []))
                               st6
                        else st6))))"

text \<open>Lines 283 to 484: the \<^verbatim>\<open>switch\<close> on \<^verbatim>\<open>wDescriptorType\<close>.\<close>

definition msos_dispatch ::
  "buffer \<Rightarrow> int \<Rightarrow> u16 \<Rightarrow> u16 \<Rightarrow> msos_state \<Rightarrow> msos_state" where
  "msos_dispatch data len wLength wDescriptorType st =
     (if wDescriptorType = 0x00 then set_header data len wLength st
      else if wDescriptorType = 0x01 then config_subset data len wLength st
      else if wDescriptorType = 0x02 then function_subset data len wLength st
      else if wDescriptorType = 0x03 then compatible_id data len wLength st
      else if wDescriptorType = 0x04 then reg_property data len wLength st
      else error (UnknownType wDescriptorType wLength) st)"

text \<open>
  Lines 248 to 487: the loop. Each \<^verbatim>\<open>break\<close> leaves it; otherwise the \<^verbatim>\<open>switch\<close> runs,
  which does not assign \<^verbatim>\<open>offset\<close>, and \<^verbatim>\<open>offset += wLength\<close> follows. \<open>wLength_at\<close> and
  \<open>wDescriptorType_at\<close> are the two header fields read at line 257 and 258.
\<close>

definition wLength_at :: "buffer \<Rightarrow> int \<Rightarrow> u16" where
  "wLength_at data off = le16 (data off) (data (off + 1))"

definition wDescriptorType_at :: "buffer \<Rightarrow> int \<Rightarrow> u16" where
  "wDescriptorType_at data off = le16 (data (off + 2)) (data (off + 3))"

function msos_walk :: "buffer \<Rightarrow> int \<Rightarrow> msos_state \<Rightarrow> msos_state" where
  "msos_walk data len st =
     (if offset st < len then
        (if offset st + 4 > len then error (Truncated (offset st) (len - offset st)) st
         else if wLength_at data (offset st) = 0
         then error (ZeroLength (offset st)) (info (AtOffset (offset st)) st)
         else if uint (wLength_at data (offset st)) < 4
         then error (InvalidLength (wLength_at data (offset st)) (offset st))
                (info (AtOffset (offset st)) st)
         else if offset st + uint (wLength_at data (offset st)) > len
         then error (BeyondBuffer (offset st) (wLength_at data (offset st)) len)
                (info (AtOffset (offset st)) st)
         else msos_walk data len
                ((msos_dispatch data len (wLength_at data (offset st))
                    (wDescriptorType_at data (offset st)) (info (AtOffset (offset st)) st))
                 \<lparr>offset := offset st + uint (wLength_at data (offset st))\<rparr>))
      else st)"
  by pat_completeness auto
termination
  by (relation "measure (\<lambda>(data, len, st). nat (len - offset st))") auto

declare msos_walk.simps [simp del]

text \<open>Lines 489 to 499.\<close>

definition msos_summary :: "msos_state \<Rightarrow> msos_state" where
  "msos_summary st =
     (let st1 = info (MsosSummary (error_count st) (warning_count st)) st
      in if error_count st = 0 \<and> warning_count st = 0 then info MsosWellFormed st1
         else if error_count st = 0 then info (MsosValidWithWarnings (warning_count st)) st1
         else info (MsosHasErrors (error_count st) (warning_count st)) st1)"

definition msos_start :: "int \<Rightarrow> msos_state" where
  "msos_start len =
     \<lparr>offset = 0, error_count = 0, warning_count = 0, out = [Info (MsosBanner len)]\<rparr>"

definition parse_msos20_descriptor :: "buffer \<Rightarrow> int \<Rightarrow> msos_state" where
  "parse_msos20_descriptor data len = msos_summary (msos_walk data len (msos_start len))"

section \<open>Vocabulary of the statements\<close>

text \<open>
  Every iteration of the loop of \<open>bos_walk\<close> prints exactly one of two lines first: the
  truncation error, or the header line of the capability. Counting these lines in the
  output counts the iterations.
\<close>

definition is_iteration :: "bos_finding line \<Rightarrow> bool" where
  "is_iteration l =
     (case l of Info (CapHeader n off cl ct cc) \<Rightarrow> True
      | Error (CapTruncated off) \<Rightarrow> True
      | _ \<Rightarrow> False)"

text \<open>
  The chain of capability records that the cursor of the walk steps through: at most
  \<open>n\<close> records from \<open>off\<close> on, each where the previous one ends according to its first
  byte, as long as the offset is below the declared length. Each record is given by its
  offset and its \<^verbatim>\<open>bLength\<close>.
\<close>

fun cap_records :: "buffer \<Rightarrow> int \<Rightarrow> nat \<Rightarrow> int \<Rightarrow> (int \<times> u8) list" where
  "cap_records data len 0 off = []"
| "cap_records data len (Suc n) off =
     (if off < len then (off, data off) # cap_records data len n (off + uint (data off))
      else [])"

text \<open>
  For the chain after the header (\<^verbatim>\<open>bNumDeviceCaps\<close> records from \<^verbatim>\<open>bLength\<close> on):
  every record has a non-zero length and ends within the declared length
  (\<open>caps_fit\<close>); the three header bytes of every record lie within the declared length
  (\<open>caps_headed\<close>).
\<close>

definition caps_fit :: "buffer \<Rightarrow> int \<Rightarrow> bool" where
  "caps_fit data len =
     list_all (\<lambda>(off, l). l \<noteq> 0 \<and> off + uint l \<le> len)
       (cap_records data len (unat (data 4)) (uint (data 0)))"

definition caps_headed :: "buffer \<Rightarrow> int \<Rightarrow> bool" where
  "caps_headed data len =
     list_all (\<lambda>(off, l). off + 3 \<le> len)
       (cap_records data len (unat (data 4)) (uint (data 0)))"

section \<open>Concrete inputs\<close>

text \<open>The sixteen bytes of the WebUSB platform capability UUID, as a device sends them.\<close>

definition webusb_uuid_bytes :: "u8 list" where
  "webusb_uuid_bytes =
     [0x38, 0xb6, 0x08, 0x34, 0xa9, 0x09, 0xa0, 0x47,
      0x8b, 0xfd, 0xa0, 0x76, 0x88, 0x15, 0xb6, 0x65]"

text \<open>A three-byte answer to the BOS request.\<close>

definition short_bos :: "u8 list" where
  "short_bos = [0x05, 0x0F, 0x05]"

text \<open>A URL descriptor of \<^verbatim>\<open>bLength\<close> 6 (scheme HTTPS, "abc") followed by one more byte.\<close>

definition url_abc :: "u8 list" where
  "url_abc = [6, 3, 1, 0x61, 0x62, 0x63, 0x64]"

text \<open>
  Two well-formed set headers of ten bytes, the first of which declares twenty; only the
  first ten bytes are declared to the decoder.
\<close>

definition msos_overlong :: "u8 list" where
  "msos_overlong =
     [20, 0, 0, 0, 0, 0, 3, 6, 10, 0,
      10, 0, 0, 0, 0, 0, 3, 6, 10, 0]"

text \<open>A four-byte record of the unknown type 9, followed by a set header.\<close>

definition msos_unknown_then_header :: "u8 list" where
  "msos_unknown_then_header = [4, 0, 9, 0, 10, 0, 0, 0, 0, 0, 3, 6, 14, 0]"

text \<open>
  A BOS descriptor announcing two capabilities, followed by three bytes of a record whose
  \<^verbatim>\<open>bLength\<close> is 0.
\<close>

definition bos_zero_length :: "u8 list" where
  "bos_zero_length = [5, 0x0F, 8, 0, 2, 0, 0x10, 0]"

text \<open>A BOS descriptor with one capability record of \<^verbatim>\<open>bLength\<close> 1: six bytes in all.\<close>

definition bos_short_tail :: "u8 list" where
  "bos_short_tail = [5, 0x0F, 6, 0, 1, 1]"

text \<open>
  A BOS descriptor of 25 bytes whose only capability is a WebUSB platform capability
  declaring \<^verbatim>\<open>bLength\<close> 24: the transfer ends after the UUID, before the four bytes of
  WebUSB data.
\<close>

definition bos_webusb_cut :: "u8 list" where
  "bos_webusb_cut = [5, 0x0F, 25, 0, 1, 24, 0x10, 5, 0] @ webusb_uuid_bytes"

text \<open>The same descriptor, complete: 29 bytes, version 1.00, vendor code 1, landing page 1.\<close>

definition bos_webusb :: "u8 list" where
  "bos_webusb = [5, 0x0F, 29, 0, 1, 24, 0x10, 5, 0] @ webusb_uuid_bytes @ [0, 1, 1, 1]"


section \<open>Basic facts about the output primitives\<close>

lemma out_info [simp]: "out (info f st) = out st @ [Info f]"
  and error_count_info [simp]: "error_count (info f st) = error_count st"
  and warning_count_info [simp]: "warning_count (info f st) = warning_count st"
  and offset_info [simp]: "offset (info f st) = offset st"
  by (simp_all add: info_def)

lemma out_warning [simp]: "out (warning f st) = out st @ [Warning f]"
  and error_count_warning [simp]: "error_count (warning f st) = error_count st"
  and warning_count_warning [simp]: "warning_count (warning f st) = warning_count st + 1"
  and offset_warning [simp]: "offset (warning f st) = offset st"
  by (simp_all add: warning_def)

lemma out_error [simp]: "out (error f st) = out st @ [Error f]"
  and error_count_error [simp]: "error_count (error f st) = error_count st + 1"
  and warning_count_error [simp]: "warning_count (error f st) = warning_count st"
  and offset_error [simp]: "offset (error f st) = offset st"
  by (simp_all add: error_def)

section \<open>The UUID formatter: layout\<close>

lemma hex_digit_in: "n < 16 \<Longrightarrow> hex_digit n \<in> set ''0123456789abcdef''"
  unfolding hex_digit_def by (rule nth_mem) simp

lemma set_hex2: "set (hex2 b) \<subseteq> set ''0123456789abcdef''"
proof -
  have "unat b < 256" using unsigned_less [of b] by simp
  then have "unat b div 16 < 16" by simp
  then show ?thesis
    unfolding hex2_def using hex_digit_in [of "unat b div 16"] hex_digit_in [of "unat b mod 16"]
    by simp
qed

lemma length_hex2: "length (hex2 b) = 2"
  by (simp add: hex2_def)

text \<open>
  C9. \<open>uuid_to_string\<close> is a function of the sixteen bytes \<open>uuid 0\<close> to \<open>uuid 15\<close> alone:
  the first four reversed, the next two reversed, the next two reversed, the last eight
  in order, each as two lowercase hexadecimal digits, grouped 8-4-4-4-12 (36 characters).
  On the bytes 38 b6 08 34 a9 09 a0 47 8b fd a0 76 88 15 b6 65 the result is
  3408b638-09a9-47a0-8bfd-a0768815b665.
\<close>

theorem uuid_to_string_layout:
  "uuid_to_string uuid =
     concat (map hex2 (rev (map uuid [0, 1, 2, 3]))) @ ''-'' @
     concat (map hex2 (rev (map uuid [4, 5]))) @ ''-'' @
     concat (map hex2 (rev (map uuid [6, 7]))) @ ''-'' @
     concat (map hex2 (map uuid [8, 9])) @ ''-'' @
     concat (map hex2 (map uuid [10, 11, 12, 13, 14, 15]))
   \<and> length (uuid_to_string uuid) = 36
   \<and> set (hex2 b) \<subseteq> set ''0123456789abcdef''
   \<and> uuid_to_string (buffer_of webusb_uuid_bytes) = ''3408b638-09a9-47a0-8bfd-a0768815b665''"
proof -
  have layout: "uuid_to_string uuid =
     concat (map hex2 (rev (map uuid [0, 1, 2, 3]))) @ ''-'' @
     concat (map hex2 (rev (map uuid [4, 5]))) @ ''-'' @
     concat (map hex2 (rev (map uuid [6, 7]))) @ ''-'' @
     concat (map hex2 (map uuid [8, 9])) @ ''-'' @
     concat (map hex2 (map uuid [10, 11, 12, 13, 14, 15]))"
    by (simp add: uuid_to_string_def)
  have len: "length (uuid_to_string uuid) = 36"
    by (simp add: uuid_to_string_def length_hex2)
  have ex: "uuid_to_string (buffer_of webusb_uuid_bytes) = ''3408b638-09a9-47a0-8bfd-a0768815b665''"
    by code_simp
  from layout len set_hex2 ex show ?thesis by blast
qed

section \<open>The BOS decoder\<close>

text \<open>
  C5. For a declared length below 5, \<open>parse_bos_descriptor\<close> prints the banner and one
  error line and returns: the output has exactly one error, no capability line and no
  summary, and no byte of the buffer has been read.
\<close>

theorem parse_bos_too_short:
  assumes "len < 5"
  shows "out (parse_bos_descriptor data len) = [Info (BosBanner len), Error (BosTooShort len)]
    \<and> length (filter is_error (out (parse_bos_descriptor data len))) = 1
    \<and> reads (parse_bos_descriptor data len) = []"
  using assms by (simp add: parse_bos_descriptor_def bos_start_def Let_def)

theorem parse_bos_too_short_witness:
  "(3::int) < 5
   \<and> out (parse_bos_descriptor (buffer_of short_bos) 3) =
       [Info (BosBanner 3), Error (BosTooShort 3)]
   \<and> length (filter is_error (out (parse_bos_descriptor (buffer_of short_bos) 3))) = 1
   \<and> reads (parse_bos_descriptor (buffer_of short_bos) 3) = []"
proof -
  have h: "(3::int) < 5" by simp
  from parse_bos_too_short [OF h, of "buffer_of short_bos"] h show ?thesis by simp
qed

subsection \<open>What one iteration changes\<close>

lemma touch_simps [simp]:
  "offset (touch is st) = offset st"
  "error_count (touch is st) = error_count st"
  "warning_count (touch is st) = warning_count st"
  "out (touch is st) = out st"
  "cap_count (touch is st) = cap_count st"
  "reads (touch is st) = reads st @ is"
  by (simp_all add: touch_def)

lemma cap_count_prims [simp]:
  "cap_count (info f st) = cap_count st"
  "cap_count (warning f st) = cap_count st"
  "cap_count (error f st) = cap_count st"
  by (simp_all add: info_def warning_def error_def)

lemma platform_capability_vars:
  "offset (platform_capability data st) = offset st"
  "cap_count (platform_capability data st) = cap_count st"
  "error_count (platform_capability data st) = error_count st"
  by (simp_all add: platform_capability_def Let_def)

lemma platform_capability_errors:
  "filter is_error (out (platform_capability data st)) = filter is_error (out st)"
  by (simp add: platform_capability_def Let_def)

lemma platform_capability_iterations:
  "filter is_iteration (out (platform_capability data st)) = filter is_iteration (out st)"
  by (simp add: platform_capability_def Let_def is_iteration_def)

lemma platform_capability_zero:
  "data (offset st) = 0 \<Longrightarrow>
   warning_count (platform_capability data st) = warning_count st"
  by (simp add: platform_capability_def Let_def)

lemma bos_capability_vars:
  "offset (bos_capability data len st) = offset st + uint (data (offset st))"
  "cap_count (bos_capability data len st) = cap_count st + 1"
  "error_count (bos_capability data len st) = error_count st"
  by (simp_all add: bos_capability_def Let_def platform_capability_vars)

lemma bos_capability_errors:
  "filter is_error (out (bos_capability data len st)) = filter is_error (out st)"
  by (simp add: bos_capability_def Let_def platform_capability_errors)

lemma bos_capability_iterations:
  "length (filter is_iteration (out (bos_capability data len st))) =
   length (filter is_iteration (out st)) + 1"
  by (simp add: bos_capability_def Let_def platform_capability_iterations is_iteration_def)

lemma bos_capability_zero:
  "data (offset st) = 0 \<Longrightarrow>
   warning_count (bos_capability data len st) = warning_count st"
  by (simp add: bos_capability_def Let_def platform_capability_zero)

lemma bos_walk_iterations:
  "int (length (filter is_iteration (out (bos_walk data len st)))) \<le>
   int (length (filter is_iteration (out st))) + max 0 (uint (data 4) - cap_count st)"
proof (induction data len st rule: bos_walk.induct)
  case (1 data len st)
  show ?case
  proof (cases "offset st < len \<and> cap_count st < uint (data 4)")
    case False
    then show ?thesis by (simp add: bos_walk.simps [of data len st])
  next
    case True
    show ?thesis
    proof (cases "offset st + 3 > len")
      case trunc: True
      with True show ?thesis
        by (simp add: bos_walk.simps [of data len st] is_iteration_def)
    next
      case False
      with True 1 have "int (length (filter is_iteration
            (out (bos_walk data len (bos_capability data len st))))) \<le>
          int (length (filter is_iteration (out (bos_capability data len st)))) +
          max 0 (uint (data 4) - cap_count (bos_capability data len st))"
        by simp
      with True False show ?thesis
        by (simp add: bos_walk.simps [of data len st] bos_capability_iterations
            bos_capability_vars)
    qed
  qed
qed

lemma bos_walk_cap_count:
  "cap_count st \<le> uint (data 4) \<Longrightarrow> cap_count (bos_walk data len st) \<le> uint (data 4)"
proof (induction data len st rule: bos_walk.induct)
  case (1 data len st)
  show ?case
  proof (cases "offset st < len \<and> cap_count st < uint (data 4)")
    case False
    with 1 show ?thesis by (simp add: bos_walk.simps [of data len st])
  next
    case True
    show ?thesis
    proof (cases "offset st + 3 > len")
      case trunc: True
      with True show ?thesis
        by (simp add: bos_walk.simps [of data len st])
    next
      case False
      with True 1 have "cap_count (bos_walk data len (bos_capability data len st)) \<le> uint (data 4)"
        by (simp add: bos_capability_vars)
      with True False show ?thesis
        by (simp add: bos_walk.simps [of data len st])
    qed
  qed
qed

lemma bos_header_vars:
  "cap_count (bos_header data len st) = 0"
  "offset (bos_header data len st) = uint (data 0)"
  "filter is_iteration (out (bos_header data len st)) = filter is_iteration (out st)"
  by (simp_all add: bos_header_def Let_def is_iteration_def)

lemma bos_summary_vars:
  "cap_count (bos_summary st) = cap_count st"
  "error_count (bos_summary st) = error_count st"
  "filter is_iteration (out (bos_summary st)) = filter is_iteration (out st)"
  "filter is_error (out (bos_summary st)) = filter is_error (out st)"
  by (simp_all add: bos_summary_def Let_def is_iteration_def)

subsection \<open>The walk is bounded by the capability counter\<close>

text \<open>
  C10. Whatever the buffer and the declared length, the loop of the BOS decoder runs at
  most \<^verbatim>\<open>bNumDeviceCaps\<close> times, hence at most 255 times: every complete iteration adds
  one to \<^verbatim>\<open>cap_count\<close>, which the loop condition keeps below \<^verbatim>\<open>bNumDeviceCaps\<close>. No
  assumption is made on the lengths of the records, so a record of length 0 is covered.
  (\<open>bos_walk\<close> itself is a total function: its termination is proved from this counter.)
\<close>

theorem bos_walk_bounded:
  "int (length (filter is_iteration (out (parse_bos_descriptor data len)))) \<le> uint (data 4)
   \<and> uint (data 4) \<le> 255
   \<and> cap_count (parse_bos_descriptor data len) \<le> uint (data 4)
   \<and> cap_count (bos_capability data len st) = cap_count st + 1"
proof -
  have b: "uint (data 4) \<le> 255" using uint_lt2p [of "data 4"] by simp
  have i: "int (length (filter is_iteration (out (parse_bos_descriptor data len)))) \<le>
           uint (data 4)"
  proof (cases "len < 5")
    case True
    then show ?thesis
      by (simp add: parse_bos_descriptor_def bos_start_def Let_def is_iteration_def)
  next
    case False
    have "int (length (filter is_iteration
             (out (bos_walk data len (bos_header data len (bos_start len)))))) \<le>
          int (length (filter is_iteration (out (bos_header data len (bos_start len))))) +
          max 0 (uint (data 4) - cap_count (bos_header data len (bos_start len)))"
      by (rule bos_walk_iterations)
    then have "int (length (filter is_iteration
             (out (bos_walk data len (bos_header data len (bos_start len)))))) \<le> uint (data 4)"
      by (simp add: bos_header_vars bos_start_def is_iteration_def)
    with False show ?thesis
      by (simp add: parse_bos_descriptor_def Let_def bos_summary_vars)
  qed
  have c: "cap_count (parse_bos_descriptor data len) \<le> uint (data 4)"
  proof (cases "len < 5")
    case True
    then show ?thesis
      by (simp add: parse_bos_descriptor_def bos_start_def Let_def)
  next
    case False
    have "cap_count (bos_walk data len (bos_header data len (bos_start len))) \<le> uint (data 4)"
      by (rule bos_walk_cap_count) (simp add: bos_header_vars)
    with False show ?thesis
      by (simp add: parse_bos_descriptor_def Let_def bos_summary_vars)
  qed
  from b i c bos_capability_vars(2) show ?thesis by blast
qed

subsection \<open>A record of length 0\<close>

text \<open>
  C2 does not hold of the code. The BOS walk has no check for a record of length 0,
  unlike the walk of \<open>parse_msos20_descriptor\<close>, which reports such a record as an error
  and stops. On \<open>bos_zero_length\<close> the record at offset 5 has length 0: the walk does not
  stop at it and reports no error, it prints the same record twice, once for each
  announced capability, and the summary calls the descriptor well-formed.
\<close>

theorem bos_zero_length_not_an_error:
  "buffer_of bos_zero_length 5 = 0
   \<and> out (parse_bos_descriptor (buffer_of bos_zero_length) 8) =
       [Info (BosBanner 8), Info (BosHeader 5 0x0F 8 2),
        Info (CapHeader 0 5 0 0x10 0), Info (NonPlatformCap 0),
        Info (CapHeader 1 5 0 0x10 0), Info (NonPlatformCap 0),
        Info (BosSummary 2 0 0), Info BosWellFormed]
   \<and> error_count (parse_bos_descriptor (buffer_of bos_zero_length) 8) = 0"
  by code_simp

text \<open>
  The same on every buffer: from a record of length 0 whose three header bytes lie
  within the declared length, the cursor never moves; the record is printed once for
  each capability still to be counted, and the walk ends when the counter reaches
  \<^verbatim>\<open>bNumDeviceCaps\<close>, with the error count, the error lines and the warning count as
  they were.
\<close>

lemma bos_walk_zero_length:
  assumes "offset st + 3 \<le> len" and "data (offset st) = 0"
    and "cap_count st \<le> uint (data 4)"
  shows "offset (bos_walk data len st) = offset st
    \<and> cap_count (bos_walk data len st) = uint (data 4)
    \<and> error_count (bos_walk data len st) = error_count st
    \<and> warning_count (bos_walk data len st) = warning_count st
    \<and> filter is_error (out (bos_walk data len st)) = filter is_error (out st)
    \<and> int (length (filter is_iteration (out (bos_walk data len st)))) =
        int (length (filter is_iteration (out st))) + (uint (data 4) - cap_count st)"
  using assms
proof (induction data len st rule: bos_walk.induct)
  case (1 data len st)
  show ?case
  proof (cases "cap_count st < uint (data 4)")
    case False
    with "1.prems" show ?thesis by (simp add: bos_walk.simps [of data len st])
  next
    case True
    let ?st = "bos_capability data len st"
    have o: "offset ?st = offset st" using "1.prems" by (simp add: bos_capability_vars)
    have c: "cap_count ?st = cap_count st + 1" by (simp add: bos_capability_vars)
    have step: "bos_walk data len st = bos_walk data len ?st"
      using True "1.prems" by (simp add: bos_walk.simps [of data len st])
    have "offset (bos_walk data len ?st) = offset ?st
      \<and> cap_count (bos_walk data len ?st) = uint (data 4)
      \<and> error_count (bos_walk data len ?st) = error_count ?st
      \<and> warning_count (bos_walk data len ?st) = warning_count ?st
      \<and> filter is_error (out (bos_walk data len ?st)) = filter is_error (out ?st)
      \<and> int (length (filter is_iteration (out (bos_walk data len ?st)))) =
          int (length (filter is_iteration (out ?st))) + (uint (data 4) - cap_count ?st)"
      using True "1.prems" by (intro "1.IH") (simp_all add: o c)
    then show ?thesis
      using "1.prems"
      by (simp add: step o c bos_capability_vars bos_capability_errors
          bos_capability_iterations bos_capability_zero)
  qed
qed

lemma bos_walk_zero_length_example:
  "offset (bos_header (buffer_of bos_zero_length) 8 (bos_start 8)) + 3 \<le> 8
   \<and> buffer_of bos_zero_length (offset (bos_header (buffer_of bos_zero_length) 8 (bos_start 8))) = 0
   \<and> cap_count (bos_header (buffer_of bos_zero_length) 8 (bos_start 8)) \<le>
       uint (buffer_of bos_zero_length 4)
   \<and> offset (bos_walk (buffer_of bos_zero_length) 8
               (bos_header (buffer_of bos_zero_length) 8 (bos_start 8))) = 5
   \<and> cap_count (bos_walk (buffer_of bos_zero_length) 8
               (bos_header (buffer_of bos_zero_length) 8 (bos_start 8))) = 2
   \<and> error_count (bos_walk (buffer_of bos_zero_length) 8
               (bos_header (buffer_of bos_zero_length) 8 (bos_start 8))) = 0"
proof -
  let ?b = "buffer_of bos_zero_length"
  let ?st = "bos_header ?b 8 (bos_start 8)"
  have v: "offset ?st = 5" "cap_count ?st = 0" "error_count ?st = 0" "uint (?b 4) = 2"
    "?b 5 = 0"
    by code_simp+
  have h1: "offset ?st + 3 \<le> 8" by (simp add: v)
  have h2: "?b (offset ?st) = 0" by (simp add: v)
  have h3: "cap_count ?st \<le> uint (?b 4)" by (simp add: v)
  from bos_walk_zero_length [OF h1 h2 h3] h1 h2 h3 show ?thesis by (simp add: v)
qed

subsection \<open>Buffers without errors\<close>

text \<open>
  C4, as stated, fails: in \<open>bos_short_tail\<close> the total length equals the declared
  length 6, the type is 0x0F and the only record has length 1, which is not zero and
  fits in the buffer; but fewer than three bytes remain at its offset and the walk
  reports the truncation error.
\<close>

theorem bos_short_tail_error:
  "uint (le16 (buffer_of bos_short_tail 2) (buffer_of bos_short_tail 3)) = 6
   \<and> buffer_of bos_short_tail 1 = 0x0F
   \<and> caps_fit (buffer_of bos_short_tail) 6
   \<and> cap_records (buffer_of bos_short_tail) 6 1 5 = [(5, 1)]
   \<and> error_count (parse_bos_descriptor (buffer_of bos_short_tail) 6) = 1
   \<and> out (parse_bos_descriptor (buffer_of bos_short_tail) 6) =
       [Info (BosBanner 6), Info (BosHeader 5 0x0F 6 1), Error (CapTruncated 5),
        Info (BosSummary 0 1 0), Info (BosHasErrors 1 0)]"
  by code_simp

lemma bos_walk_no_errors:
  "list_all (\<lambda>(off, l). off + 3 \<le> len)
     (cap_records data len (nat (uint (data 4) - cap_count st)) (offset st)) \<Longrightarrow>
   error_count (bos_walk data len st) = error_count st \<and>
   filter is_error (out (bos_walk data len st)) = filter is_error (out st)"
proof (induction data len st rule: bos_walk.induct)
  case (1 data len st)
  show ?case
  proof (cases "offset st < len \<and> cap_count st < uint (data 4)")
    case False
    then show ?thesis by (simp add: bos_walk.simps [of data len st])
  next
    case True
    let ?st = "bos_capability data len st"
    from True have n: "nat (uint (data 4) - cap_count st) =
        Suc (nat (uint (data 4) - cap_count ?st))"
      unfolding bos_capability_vars by arith
    from "1.prems" True have here: "offset st + 3 \<le> len"
      and rest: "list_all (\<lambda>(off, l). off + 3 \<le> len)
          (cap_records data len (nat (uint (data 4) - cap_count ?st)) (offset ?st))"
      unfolding n by (simp_all add: bos_capability_vars)
    from here have nt: "\<not> offset st + 3 > len" by simp
    from "1.IH" [OF True nt rest] True nt show ?thesis
      by (simp add: bos_walk.simps [of data len st] bos_capability_vars bos_capability_errors)
  qed
qed

text \<open>
  C4, amended. For a declared length of at least 5, if the total length of the header
  equals the declared length, the type is 0x0F, every capability record has a non-zero
  length fitting within the buffer, and the three header bytes of every record lie
  within the buffer, then the decode ends with an error count of 0: the summary line
  reports 0 errors and no line of the output is an error (warnings may be there).
\<close>

theorem parse_bos_no_errors:
  assumes "5 \<le> len"
    and "uint (le16 (data 2) (data 3)) = len"
    and "data 1 = 0x0F"
    and "caps_fit data len"
    and "caps_headed data len"
  shows "error_count (parse_bos_descriptor data len) = 0
    \<and> filter is_error (out (parse_bos_descriptor data len)) = []
    \<and> Info (BosSummary (cap_count (parse_bos_descriptor data len)) 0
              (warning_count (parse_bos_descriptor data len)))
        \<in> set (out (parse_bos_descriptor data len))"
proof -
  let ?h = "bos_header data len (bos_start len)"
  have h: "error_count ?h = 0" "filter is_error (out ?h) = []" "cap_count ?h = 0"
    "offset ?h = uint (data 0)"
    using assms(2,3) by (simp_all add: bos_header_def Let_def bos_start_def)
  have "list_all (\<lambda>(off, l). off + 3 \<le> len)
     (cap_records data len (nat (uint (data 4) - cap_count ?h)) (offset ?h))"
    using assms(5) by (simp add: caps_headed_def h)
  then have w: "error_count (bos_walk data len ?h) = 0"
    "filter is_error (out (bos_walk data len ?h)) = []"
    using bos_walk_no_errors [of len data ?h] by (simp_all add: h)
  show ?thesis
    using assms(1) w
    by (simp add: parse_bos_descriptor_def Let_def bos_summary_def)
qed

theorem parse_bos_no_errors_witness:
  "(5::int) \<le> 29
   \<and> uint (le16 (buffer_of bos_webusb 2) (buffer_of bos_webusb 3)) = 29
   \<and> buffer_of bos_webusb 1 = 0x0F
   \<and> caps_fit (buffer_of bos_webusb) 29
   \<and> caps_headed (buffer_of bos_webusb) 29
   \<and> error_count (parse_bos_descriptor (buffer_of bos_webusb) 29) = 0
   \<and> filter is_error (out (parse_bos_descriptor (buffer_of bos_webusb) 29)) = []"
proof -
  have h1: "(5::int) \<le> 29" by simp
  have h2: "uint (le16 (buffer_of bos_webusb 2) (buffer_of bos_webusb 3)) = 29" by code_simp
  have h3: "buffer_of bos_webusb 1 = 0x0F" by code_simp
  have h4: "caps_fit (buffer_of bos_webusb) 29" by code_simp
  have h5: "caps_headed (buffer_of bos_webusb) 29" by code_simp
  from parse_bos_no_errors [OF h1 h2 h3 h4 h5] h1 h2 h3 h4 h5 show ?thesis by simp
qed

subsection \<open>Reads beyond the declared length\<close>

text \<open>
  C1 does not hold of the code. The header, the three bytes at the start of a record and
  the twenty bytes of a platform capability are read after a comparison with the
  declared length, but the WebUSB and MS OS 2.0 data are read when the \<^verbatim>\<open>bLength\<close> of the
  record covers them, whatever the declared length. On \<open>bos_webusb_cut\<close>, with 25 bytes
  declared, the decoder reads the indices 25 to 28 and reports what it finds there (the
  zeroes of the cleared buffer) as WebUSB data, with a warning for the vendor code 0.
\<close>

theorem bos_reads_past_declared_length:
  "reads (parse_bos_descriptor (buffer_of bos_webusb_cut) 25) =
     [0, 1, 2, 3, 4, 5, 6, 7, 9, 10, 11, 12, 13, 14, 15, 16, 17, 18, 19, 20, 21, 22, 23, 24,
      8, 25, 26, 27, 28]
   \<and> filter (\<lambda>i. 25 \<le> i) (reads (parse_bos_descriptor (buffer_of bos_webusb_cut) 25)) =
       [25, 26, 27, 28]
   \<and> out (parse_bos_descriptor (buffer_of bos_webusb_cut) 25) =
       [Info (BosBanner 25), Info (BosHeader 5 0x0F 25 1), Info (CapHeader 0 5 24 0x10 5),
        Info (PlatformCap 0 ''3408b638-09a9-47a0-8bfd-a0768815b665''), Info WebUSBCap,
        Info (WebUSBData 0 0 0), Warning WebUSBVendorZero, Info (BosSummary 1 0 1),
        Info (BosValidWithWarnings 1)]"
  by code_simp

section \<open>The WebUSB URL decoder\<close>

lemma url_chars_upto:
  "url_chars data len bLength i =
     map (\<lambda>j. byte_char (data j)) [i .. min (uint bLength) len - 1]"
proof (induction data len bLength i rule: url_chars.induct)
  case (1 data len bLength i)
  show ?case
  proof (cases "i < len \<and> i < uint bLength")
    case True
    then have "[i .. min (uint bLength) len - 1] = i # [i + 1 .. min (uint bLength) len - 1]"
      by (simp add: upto_rec1)
    with True 1 show ?thesis
      by (subst url_chars.simps) simp
  next
    case False
    then have "[i .. min (uint bLength) len - 1] = []" by auto
    with False show ?thesis
      by (subst url_chars.simps) simp
  qed
qed

text \<open>
  C7. For a declared length above 3, the output of \<open>parse_webusb_url_descriptor\<close> ends
  with the URL line: the scheme prefix (http:// for 0, https:// for 1, nothing for 255,
  unknown:// for any other value) followed by the bytes at the offsets 3 to
  min(bLength, length) - 1, each echoed as it is. The scheme line names an unknown scheme
  "Unknown", and no line of the output is an error or a warning, whatever the scheme.
\<close>

theorem webusb_url_rendering:
  assumes "3 < len"
  shows "parse_webusb_url_descriptor data len =
           [Info (UrlBanner len), Info (UrlLength (data 0)), Info (UrlType (data 1)),
            Info (UrlScheme (data 2) (scheme_name (data 2))),
            Info (UrlText (scheme_prefix (data 2) @
                   map (\<lambda>j. byte_char (data j)) [3 .. min (uint (data 0)) len - 1]))]
    \<and> scheme_prefix (data 2) =
           (if data 2 = 0 then ''http://'' else if data 2 = 1 then ''https://''
            else if data 2 = 255 then [] else ''unknown://'')
    \<and> scheme_name (data 2) =
           (if data 2 = 0 then ''HTTP'' else if data 2 = 1 then ''HTTPS''
            else if data 2 = 255 then ''None'' else ''Unknown'')
    \<and> filter is_error (parse_webusb_url_descriptor data len) = []
    \<and> filter is_warning (parse_webusb_url_descriptor data len) = []"
  using assms
  by (simp add: parse_webusb_url_descriptor_def Let_def url_chars_upto scheme_prefix_def
      scheme_name_def)

theorem webusb_url_rendering_witness:
  "(3::int) < 7
   \<and> parse_webusb_url_descriptor (buffer_of url_abc) 7 =
       [Info (UrlBanner 7), Info (UrlLength 6), Info (UrlType 3), Info (UrlScheme 1 ''HTTPS''),
        Info (UrlText ''https://abc'')]
   \<and> filter is_error (parse_webusb_url_descriptor (buffer_of url_abc) 7) = []"
proof -
  have h: "(3::int) < 7" by simp
  have e: "[Info (UrlBanner 7), Info (UrlLength (buffer_of url_abc 0)),
            Info (UrlType (buffer_of url_abc 1)),
            Info (UrlScheme (buffer_of url_abc 2) (scheme_name (buffer_of url_abc 2))),
            Info (UrlText (scheme_prefix (buffer_of url_abc 2) @
                   map (\<lambda>j. byte_char (buffer_of url_abc j))
                     [3 .. min (uint (buffer_of url_abc 0)) 7 - 1]))] =
           [Info (UrlBanner 7), Info (UrlLength 6), Info (UrlType 3),
            Info (UrlScheme 1 ''HTTPS''), Info (UrlText ''https://abc'')]"
    by code_simp
  from webusb_url_rendering [OF h, of "buffer_of url_abc"] e h show ?thesis by simp
qed

section \<open>The MS OS 2.0 decoder\<close>

text \<open>
  C3. When the declared length is positive and the \<^verbatim>\<open>wLength\<close> of the first
  sub-descriptor exceeds it, \<open>parse_msos20_descriptor\<close> prints one error line (the
  truncation error when fewer than four bytes are declared, the beyond-buffer error
  otherwise) and the summary with one error: the walk has stopped at offset 0 and no
  line is printed for any later byte.
\<close>

theorem msos_first_length_exceeds:
  assumes "0 < len" and "0 + uint (wLength_at data 0) > len"
  shows "out (parse_msos20_descriptor data len) =
           [Info (MsosBanner len)] @
           (if len < 4 then [Error (Truncated 0 len)]
            else [Info (AtOffset 0), Error (BeyondBuffer 0 (wLength_at data 0) len)]) @
           [Info (MsosSummary 1 0), Info (MsosHasErrors 1 0)]
    \<and> length (filter is_error (out (parse_msos20_descriptor data len))) = 1
    \<and> error_count (parse_msos20_descriptor data len) = 1
    \<and> offset (parse_msos20_descriptor data len) = 0"
proof -
  have nz: "wLength_at data 0 \<noteq> 0" using assms by auto
  have ge: "\<not> uint (wLength_at data 0) < 4" if "4 \<le> len" using assms that by auto
  have walk: "msos_walk data len (msos_start len) =
      (if len < 4 then error (Truncated 0 len) (msos_start len)
       else error (BeyondBuffer 0 (wLength_at data 0) len) (info (AtOffset 0) (msos_start len)))"
    using assms nz ge by (subst msos_walk.simps) (simp add: msos_start_def)
  show ?thesis
    unfolding parse_msos20_descriptor_def walk
    by (simp add: msos_summary_def Let_def msos_start_def)
qed

theorem msos_first_length_exceeds_witness:
  "(0::int) < 10 \<and> 0 + uint (wLength_at (buffer_of msos_overlong) 0) > 10
   \<and> out (parse_msos20_descriptor (buffer_of msos_overlong) 10) =
       [Info (MsosBanner 10), Info (AtOffset 0), Error (BeyondBuffer 0 20 10),
        Info (MsosSummary 1 0), Info (MsosHasErrors 1 0)]
   \<and> error_count (parse_msos20_descriptor (buffer_of msos_overlong) 10) = 1"
proof -
  have w: "wLength_at (buffer_of msos_overlong) 0 = 20" by code_simp
  have h1: "(0::int) < 10" by simp
  have h2: "0 + uint (wLength_at (buffer_of msos_overlong) 0) > 10" by (simp add: w)
  from msos_first_length_exceeds [OF h1 h2] h1 h2 show ?thesis by (simp add: w)
qed

text \<open>
  C8. A sub-descriptor that passes the length checks (\<^verbatim>\<open>wLength\<close> at least 4 and within
  the declared length) and whose \<^verbatim>\<open>wDescriptorType\<close> is above 4 adds one error line and
  one to the error count, and the walk goes on from the offset advanced by \<^verbatim>\<open>wLength\<close>.
\<close>

theorem msos_unknown_type_continues:
  assumes "4 \<le> uint (wLength_at data (offset st))"
    and "offset st + uint (wLength_at data (offset st)) \<le> len"
    and "4 < uint (wDescriptorType_at data (offset st))"
  shows "msos_walk data len st =
           msos_walk data len
             (st\<lparr>offset := offset st + uint (wLength_at data (offset st)),
                 error_count := error_count st + 1,
                 out := out st @
                   [Info (AtOffset (offset st)),
                    Error (UnknownType (wDescriptorType_at data (offset st))
                             (wLength_at data (offset st)))]\<rparr>)"
proof -
  have nz: "wLength_at data (offset st) \<noteq> 0" using assms(1) by auto
  have ty: "wDescriptorType_at data (offset st) \<noteq> 0" "wDescriptorType_at data (offset st) \<noteq> 1"
    "wDescriptorType_at data (offset st) \<noteq> 2" "wDescriptorType_at data (offset st) \<noteq> 3"
    "wDescriptorType_at data (offset st) \<noteq> 4"
    using assms(3) by auto
  have upd: "(msos_dispatch data len (wLength_at data (offset st))
                (wDescriptorType_at data (offset st)) (info (AtOffset (offset st)) st))
             \<lparr>offset := offset st + uint (wLength_at data (offset st))\<rparr> =
             st\<lparr>offset := offset st + uint (wLength_at data (offset st)),
                 error_count := error_count st + 1,
                 out := out st @
                   [Info (AtOffset (offset st)),
                    Error (UnknownType (wDescriptorType_at data (offset st))
                             (wLength_at data (offset st)))]\<rparr>"
    using ty by (cases st) (simp add: msos_dispatch_def info_def error_def)
  show ?thesis
    using assms nz by (subst msos_walk.simps) (simp add: upd)
qed

theorem msos_unknown_type_continues_witness:
  "4 \<le> uint (wLength_at (buffer_of msos_unknown_then_header) (offset (msos_start 14)))
   \<and> offset (msos_start 14) +
       uint (wLength_at (buffer_of msos_unknown_then_header) (offset (msos_start 14))) \<le> 14
   \<and> 4 < uint (wDescriptorType_at (buffer_of msos_unknown_then_header) (offset (msos_start 14)))
   \<and> msos_walk (buffer_of msos_unknown_then_header) 14 (msos_start 14) =
       msos_walk (buffer_of msos_unknown_then_header) 14
         \<lparr>offset = 4, error_count = 1, warning_count = 0,
          out = [Info (MsosBanner 14), Info (AtOffset 0), Error (UnknownType 9 4)]\<rparr>
   \<and> out (parse_msos20_descriptor (buffer_of msos_unknown_then_header) 14) =
       [Info (MsosBanner 14), Info (AtOffset 0), Error (UnknownType 9 4), Info (AtOffset 4),
        Info (SetHeader 10 0x06030000 14), Warning (SetHeaderNotFirst 4),
        Info (MsosSummary 1 1), Info (MsosHasErrors 1 1)]"
proof -
  have o: "offset (msos_start 14) = 0" by (simp add: msos_start_def)
  have w: "wLength_at (buffer_of msos_unknown_then_header) 0 = 4" by code_simp
  have t: "wDescriptorType_at (buffer_of msos_unknown_then_header) 0 = 9" by code_simp
  have h1: "4 \<le> uint (wLength_at (buffer_of msos_unknown_then_header) (offset (msos_start 14)))"
    by (simp add: o w)
  have h2: "offset (msos_start 14) +
       uint (wLength_at (buffer_of msos_unknown_then_header) (offset (msos_start 14))) \<le> 14"
    by (simp add: o w)
  have h3: "4 < uint (wDescriptorType_at (buffer_of msos_unknown_then_header)
                        (offset (msos_start 14)))"
    by (simp add: o t)
  have step: "msos_walk (buffer_of msos_unknown_then_header) 14 (msos_start 14) =
       msos_walk (buffer_of msos_unknown_then_header) 14
         \<lparr>offset = 4, error_count = 1, warning_count = 0,
          out = [Info (MsosBanner 14), Info (AtOffset 0), Error (UnknownType 9 4)]\<rparr>"
    using msos_unknown_type_continues [OF h1 h2 h3] by (simp add: o w t) (simp add: msos_start_def)
  have run: "out (parse_msos20_descriptor (buffer_of msos_unknown_then_header) 14) =
       [Info (MsosBanner 14), Info (AtOffset 0), Error (UnknownType 9 4), Info (AtOffset 4),
        Info (SetHeader 10 0x06030000 14), Warning (SetHeaderNotFirst 4),
        Info (MsosSummary 1 1), Info (MsosHasErrors 1 1)]"
    by code_simp
  from h1 h2 h3 step run show ?thesis by blast
qed

subsection \<open>A registry property named A\<close>




end
